theory Spec2Isabelle
  imports
    Main
    "HOL-Library.Multiset"
    "HOL-Library.Stream"
    "HOL-Library.Char_ord"
    "HOL-Library.List_Lexorder"
begin

section \<open>Values, errors and the program state\<close>

text \<open>
  The generators of \<^verbatim>\<open>chunked_dataset.py\<close> handle arbitrary Python objects. The
  object \<^verbatim>\<open>None\<close> and the strings matter to the code (the shuffle buffer uses
  \<^verbatim>\<open>None\<close> as its empty-slot marker, the chunk reader yields \<^verbatim>\<open>str\<close> lines); every
  other object is a value of the type parameter.
\<close>

datatype 'a pyval = PyNone | PyStr string | PyObj 'a

text \<open>
  \<open>ValueError\<close> is the exception of line 36 and of \<^verbatim>\<open>random.randrange\<close> on an empty
  range; \<open>OSError\<close> stands for every failure of opening, decompressing or decoding a
  chunk file and of listing a directory.
\<close>

datatype error = ValueError | OSError

text \<open>
  The state the module works on: the process-wide random generator of the \<^verbatim>\<open>random\<close>
  module, as the stream of raw draws it is going to deliver, and the store of the list
  objects holding chunk file paths. A reference to a list object is its index in the
  store; a list object is never freed.
\<close>

record state =
  rng :: "nat stream"
  store :: "string list list"

text \<open>
  A generator is modelled by its complete run: started in a state, it delivers the items
  it yields, in order, says how it ended (\<open>None\<close>: exhausted, \<open>Some e\<close>: the exception
  \<open>e\<close> was raised after these items) and leaves a state. The body of a Python generator
  runs only once the first item is requested; a generator that is never started is a run
  that is never applied to a state.
\<close>

type_synonym 'a run = "'a list \<times> error option"
type_synonym 'a generator = "state \<Rightarrow> 'a run \<times> state"

text \<open>A Python list given as \<^verbatim>\<open>data\<close>: iterating it has no effect and never fails.\<close>

definition list_data :: "'a list \<Rightarrow> 'a generator" where
  "list_data xs s = ((xs, None), s)"

section \<open>The \<^verbatim>\<open>random\<close> module\<close>

text \<open>
  \<^verbatim>\<open>randbelow n\<close>, for \<open>n > 0\<close>, consumes one raw draw and delivers a number below
  \<open>n\<close>. Every sequence of results is delivered by some stream of raw draws.
\<close>

definition randbelow :: "nat \<Rightarrow> state \<Rightarrow> nat \<times> state" where
  "randbelow n s = (shd (rng s) mod n, s\<lparr>rng := stl (rng s)\<rparr>)"

text \<open>\<^verbatim>\<open>random.randrange(start, stop)\<close> raises \<^verbatim>\<open>ValueError\<close> on an empty range.\<close>

definition randrange :: "int \<Rightarrow> int \<Rightarrow> state \<Rightarrow> (error + int) \<times> state" where
  "randrange start stop s =
     (if stop \<le> start then (Inl ValueError, s)
      else (let (r, s') = randbelow (nat (stop - start)) s in (Inr (start + int r), s')))"

text \<open>
  \<^verbatim>\<open>random.shuffle(x)\<close> permutes a list in place:
  \<^verbatim>\<open>for i in reversed(range(1, len(x))): j = randbelow(i + 1); x[i], x[j] = x[j], x[i]\<close>.
  \<open>shuffle_loop i\<close> is the rest of that loop from index \<open>i\<close> downwards.
\<close>

fun shuffle_loop :: "nat \<Rightarrow> 'a list \<Rightarrow> state \<Rightarrow> 'a list \<times> state" where
  "shuffle_loop 0 x s = (x, s)"
| "shuffle_loop (Suc i) x s =
     (let (j, s') = randbelow (Suc i + 1) s
      in shuffle_loop i (x[Suc i := x ! j, j := x ! Suc i]) s')"

definition random_shuffle :: "'a list \<Rightarrow> state \<Rightarrow> 'a list \<times> state" where
  "random_shuffle x s = shuffle_loop (length x - 1) x s"

section \<open>\<^verbatim>\<open>buffered_shuffle_generator\<close>\<close>

text \<open>
  Lines 41 to 45: the loop over the items of \<^verbatim>\<open>data\<close>. It returns what it yields, whether
  a call of \<^verbatim>\<open>randrange\<close> raised, the buffer and the state it leaves.
\<close>

fun fill_loop ::
  "'a pyval list \<Rightarrow> 'a pyval list \<Rightarrow> state \<Rightarrow> 'a pyval run \<times> 'a pyval list \<times> state" where
  "fill_loop [] buffer s = (([], None), buffer, s)"
| "fill_loop (item # data) buffer s =
     (case randrange 0 (int (length buffer)) s of
        (Inl e, s1) \<Rightarrow> (([], Some e), buffer, s1)
      | (Inr index, s1) \<Rightarrow>
          (let out = (if buffer ! nat index \<noteq> PyNone then [buffer ! nat index] else []);
               ((outs, err), buffer', s') = fill_loop data (buffer[nat index := item]) s1
           in ((out @ outs, err), buffer', s')))"

text \<open>Lines 48 to 51: shuffle the buffer and yield every entry that is not \<^verbatim>\<open>None\<close>.\<close>

definition flush :: "'a pyval list \<Rightarrow> state \<Rightarrow> 'a pyval list \<times> state" where
  "flush buffer s =
     (let (buffer', s') = random_shuffle buffer s
      in (filter (\<lambda>item. item \<noteq> PyNone) buffer', s'))"

text \<open>
  The whole generator. The check of line 35 comes before the first item of \<^verbatim>\<open>data\<close> is
  requested, so with a non-positive \<^verbatim>\<open>buffer_size\<close> the source is never started. When
  the source raises, the exception passes through the loop of line 41 and nothing is
  flushed. The source is run as a whole when its first item is requested; this is exact
  for a source whose effects on the state all precede its first item, as is the case for
  a list and for \<^verbatim>\<open>chunked_data_generator\<close>.
\<close>

definition buffered_shuffle_generator ::
  "'a pyval generator \<Rightarrow> int \<Rightarrow> 'a pyval generator" where
  "buffered_shuffle_generator data buffer_size s =
     (if buffer_size \<le> 0 then (([], Some ValueError), s)
      else
        (let buffer = replicate (nat buffer_size) PyNone;
             ((items, status), s1) = data s;
             ((out, err), buffer', s2) = fill_loop items buffer s1
         in (case err of
               Some e \<Rightarrow> ((out, Some e), s2)
             | None \<Rightarrow>
                 (case status of
                    Some e \<Rightarrow> ((out, Some e), s2)
                  | None \<Rightarrow> (let (rest, s3) = flush buffer' s2 in ((out @ rest, None), s3))))))"

section \<open>\<^verbatim>\<open>transform_generator\<close>\<close>

text \<open>
  The two loops of the generator, lines 63 to 64 and lines 66 to 67. The transform is a
  function of the item; \<^verbatim>\<open>if transform:\<close> tells a function from the default
  \<^verbatim>\<open>None\<close>.
\<close>

fun transform_loop :: "('a \<Rightarrow> 'b) \<Rightarrow> 'a list \<Rightarrow> 'b list" where
  "transform_loop transform [] = []"
| "transform_loop transform (item # data) = transform item # transform_loop transform data"

fun yield_loop :: "'a list \<Rightarrow> 'a list" where
  "yield_loop [] = []"
| "yield_loop (item # data) = item # yield_loop data"

definition transform_generator :: "'a generator \<Rightarrow> ('a \<Rightarrow> 'a) option \<Rightarrow> 'a generator" where
  "transform_generator data transform s =
     (let ((items, status), s') = data s
      in (case transform of
            Some f \<Rightarrow> ((transform_loop f items, status), s')
          | None \<Rightarrow> ((yield_loop items, status), s')))"

section \<open>The file system and \<^verbatim>\<open>chunked_data_generator\<close>\<close>

text \<open>
  What the module sees of the file system: the entries \<^verbatim>\<open>os.scandir\<close> delivers for a
  directory, in the order it delivers them (\<open>None\<close>: the call fails), and for a path
  the value of \<^verbatim>\<open>gzip.open(path, 'r').read().decode('utf-8').splitlines()\<close>
  (\<open>None\<close>: one of these calls fails). Reading does not change the file system.
\<close>

record dir_entry =
  name :: string
  is_file :: bool

record filesystem =
  scandir :: "string \<Rightarrow> dir_entry list option"
  read_lines :: "string \<Rightarrow> string list option"

text \<open>Lines 19 to 24: read one chunk after the other and yield its lines.\<close>

fun read_chunks :: "filesystem \<Rightarrow> string list \<Rightarrow> 'a pyval run" where
  "read_chunks fs [] = ([], None)"
| "read_chunks fs (chunk_file_path # rest) =
     (case read_lines fs chunk_file_path of
        None \<Rightarrow> ([], Some OSError)
      | Some data \<Rightarrow>
          (let (items, status) = read_chunks fs rest in (map PyStr data @ items, status)))"

text \<open>\<^verbatim>\<open>x.copy()\<close> allocates a new list object with the elements of the old one.\<close>

definition list_copy :: "nat \<Rightarrow> state \<Rightarrow> nat \<times> state" where
  "list_copy r s = (length (store s), s\<lparr>store := store s @ [store s ! r]\<rparr>)"

text \<open>\<^verbatim>\<open>random.shuffle(x)\<close> on a list object of the store: the object itself changes.\<close>

definition shuffle_in_place :: "nat \<Rightarrow> state \<Rightarrow> state" where
  "shuffle_in_place r s =
     (let (x, s') = random_shuffle (store s ! r) s in s'\<lparr>store := (store s')[r := x]\<rparr>)"

text \<open>
  The generator gets a reference to the list of paths. Lines 14 to 17 run when the first
  item is requested; the loop after them does not write to the state.
\<close>

definition chunked_data_generator :: "filesystem \<Rightarrow> nat \<Rightarrow> bool \<Rightarrow> 'a pyval generator" where
  "chunked_data_generator fs chunk_file_paths shuffle_chunks s =
     (let (copied, s1) = list_copy chunk_file_paths s;
          s2 = (if shuffle_chunks then shuffle_in_place copied s1 else s1)
      in (read_chunks fs (store s2 ! copied), s2))"

section \<open>\<^verbatim>\<open>ChunkedDataset\<close>\<close>

definition startswith :: "string \<Rightarrow> string \<Rightarrow> bool" where
  "startswith str pre = (take (length pre) str = pre)"

definition endswith :: "string \<Rightarrow> string \<Rightarrow> bool" where
  "endswith str suf = (length suf \<le> length str \<and> drop (length str - length suf) str = suf)"

text \<open>\<^verbatim>\<open>os.path.join\<close> of two components, as \<^verbatim>\<open>posixpath\<close> defines it.\<close>

definition os_path_join :: "string \<Rightarrow> string \<Rightarrow> string" where
  "os_path_join a b =
     (if startswith b ''/'' then b
      else if a = [] \<or> endswith a ''/'' then a @ b
      else a @ ''/'' @ b)"

text \<open>Lines 82 to 84; \<open>acc\<close> is the list built so far.\<close>

fun scan_loop :: "string \<Rightarrow> dir_entry list \<Rightarrow> string list \<Rightarrow> string list" where
  "scan_loop path [] acc = acc"
| "scan_loop path (subpath # rest) acc =
     scan_loop path rest
       (if is_file subpath \<and> endswith (name subpath) ''.gz''
        then acc @ [os_path_join path (name subpath)] else acc)"

text \<open>
  The object holds a reference to its list of paths. Strings are compared as Python
  compares them, character by character, a proper prefix first.
\<close>

record 'a ChunkedDataset =
  chunk_file_paths :: nat
  shuffle :: bool
  buffer_size :: int
  transform :: "('a pyval \<Rightarrow> 'a pyval) option"

definition ChunkedDataset_init ::
  "filesystem \<Rightarrow> string \<Rightarrow> bool \<Rightarrow> int \<Rightarrow> ('a pyval \<Rightarrow> 'a pyval) option \<Rightarrow> state
     \<Rightarrow> (error + 'a ChunkedDataset) \<times> state" where
  "ChunkedDataset_init fs path shuffle_arg buffer_size_arg transform_arg s =
     (case scandir fs path of
        None \<Rightarrow> (Inl OSError, s)
      | Some entries \<Rightarrow>
          (Inr \<lparr>chunk_file_paths = length (store s), shuffle = shuffle_arg,
                buffer_size = buffer_size_arg, transform = transform_arg\<rparr>,
           s\<lparr>store := store s @ [sort (scan_loop path entries [])]\<rparr>))"

definition ChunkedDataset_iter :: "filesystem \<Rightarrow> 'a ChunkedDataset \<Rightarrow> 'a pyval generator" where
  "ChunkedDataset_iter fs self =
     (let gen = chunked_data_generator fs (chunk_file_paths self) (shuffle self);
          gen = (if shuffle self then buffered_shuffle_generator gen (buffer_size self) else gen)
      in transform_generator gen (transform self))"

section \<open>The shuffle buffer as the specification describes it\<close>







section \<open>Example inputs\<close>

definition example_state :: state where
  "example_state = \<lparr>rng = sconst 0, store = []\<rparr>"

text \<open>
  A directory \<^verbatim>\<open>data\<close> with two chunk files, a text file and a subdirectory whose name
  ends in \<^verbatim>\<open>.gz\<close>.
\<close>

definition example_fs :: filesystem where
  "example_fs =
     \<lparr>scandir = (\<lambda>path. if path = ''data''
        then Some [\<lparr>name = ''b.gz'', is_file = True\<rparr>, \<lparr>name = ''notes.txt'', is_file = True\<rparr>,
                   \<lparr>name = ''a.gz'', is_file = True\<rparr>, \<lparr>name = ''old.gz'', is_file = False\<rparr>]
        else None),
      read_lines = (\<lambda>path. if path = ''data/a.gz'' then Some [''a'', ''b'']
        else if path = ''data/b.gz'' then Some [''c''] else None)\<rparr>"

abbreviation not_none :: "'a pyval \<Rightarrow> bool" where
  "not_none item \<equiv> item \<noteq> PyNone"

section \<open>Properties of the \<^verbatim>\<open>random\<close> module and of the fill loop\<close>

lemma randrange_nonempty:
  "0 < n \<Longrightarrow>
   randrange 0 (int n) s = (Inr (int (shd (rng s) mod n)), s\<lparr>rng := stl (rng s)\<rparr>)"
  by (simp add: randrange_def randbelow_def)

lemma length_shuffle_loop: "length (fst (shuffle_loop i x s)) = length x"
  by (induction i x s rule: shuffle_loop.induct) (simp_all add: randbelow_def)

lemma mset_shuffle_loop: "i < length x \<Longrightarrow> mset (fst (shuffle_loop i x s)) = mset x"
proof (induction i x s rule: shuffle_loop.induct)
  case (1 x s)
  then show ?case by simp
next
  case (2 i x s)
  let ?j = "shd (rng s) mod (Suc i + 1)"
  have j: "?j < length x" using "2.prems" by (simp add: less_le_trans [OF mod_less_divisor])
  have "mset (x[Suc i := x ! ?j, ?j := x ! Suc i]) = mset x"
    using mset_swap [OF j "2.prems"] .
  with "2.IH" [of "(?j, s\<lparr>rng := stl (rng s)\<rparr>)" ?j "s\<lparr>rng := stl (rng s)\<rparr>"] "2.prems"
  show ?case by (simp add: randbelow_def)
qed

lemma mset_random_shuffle: "mset (fst (random_shuffle x s)) = mset x"
proof (cases x)
  case Nil
  then show ?thesis by (simp add: random_shuffle_def)
next
  case (Cons a as)
  then show ?thesis by (simp add: random_shuffle_def mset_shuffle_loop)
qed

lemma fill_loop_Cons:
  "0 < length buffer \<Longrightarrow>
   fill_loop (item # data) buffer s =
     (let i = shd (rng s) mod length buffer;
          r = fill_loop data (buffer[i := item]) (s\<lparr>rng := stl (rng s)\<rparr>)
      in (((if buffer ! i \<noteq> PyNone then [buffer ! i] else []) @ fst (fst r), snd (fst r)),
          snd r))"
  by (simp add: randrange_nonempty Let_def case_prod_beta)

lemma fill_loop_no_error:
  "0 < length buffer \<Longrightarrow> snd (fst (fill_loop data buffer s)) = None"
proof (induction data arbitrary: buffer s)
  case Nil
  then show ?case by simp
next
  case (Cons item data)
  let ?i = "shd (rng s) mod length buffer"
  have "0 < length (buffer[?i := item])" using Cons.prems by simp
  from Cons.IH [OF this] show ?case
    using Cons.prems by (simp add: fill_loop_Cons Let_def del: fill_loop.simps)
qed


lemma filter_mset_update:
  assumes "i < length ls"
  shows "filter_mset P (mset (ls[i := v])) + filter_mset P {#ls ! i#} =
         filter_mset P {#v#} + filter_mset P (mset ls)"
proof -
  have "mset (ls[i := v]) + {#ls ! i#} = {#v#} + mset ls"
    using assms by (simp add: mset_update nth_mem_mset)
  then have "filter_mset P (mset (ls[i := v]) + {#ls ! i#}) = filter_mset P ({#v#} + mset ls)"
    by simp
  then show ?thesis by (simp only: filter_union_mset)
qed

lemma fill_loop_length:
  "0 < length buffer \<Longrightarrow> length (fst (snd (fill_loop data buffer s))) = length buffer"
proof (induction data arbitrary: buffer s)
  case Nil
  then show ?case by simp
next
  case (Cons item data)
  let ?i = "shd (rng s) mod length buffer"
  have "0 < length (buffer[?i := item])" using Cons.prems by simp
  from Cons.IH [OF this] show ?case
    using Cons.prems by (simp add: fill_loop_Cons Let_def del: fill_loop.simps)
qed

lemma fill_loop_not_none:
  "0 < length buffer \<Longrightarrow> PyNone \<notin> set (fst (fst (fill_loop data buffer s)))"
proof (induction data arbitrary: buffer s)
  case Nil
  then show ?case by simp
next
  case (Cons item data)
  let ?i = "shd (rng s) mod length buffer"
  have "0 < length (buffer[?i := item])" using Cons.prems by simp
  from Cons.IH [OF this] show ?case
    using Cons.prems by (simp add: fill_loop_Cons Let_def del: fill_loop.simps)
qed

lemma fill_loop_mset:
  "0 < length buffer \<Longrightarrow>
   mset (fst (fst (fill_loop data buffer s))) +
     filter_mset not_none (mset (fst (snd (fill_loop data buffer s)))) =
   filter_mset not_none (mset data) + filter_mset not_none (mset buffer)"
proof (induction data arbitrary: buffer s)
  case Nil
  then show ?case by simp
next
  case (Cons item data)
  let ?i = "shd (rng s) mod length buffer"
  let ?s = "s\<lparr>rng := stl (rng s)\<rparr>"
  let ?r = "fill_loop data (buffer[?i := item]) ?s"
  have i: "?i < length buffer" using Cons.prems by simp
  have "0 < length (buffer[?i := item])" using Cons.prems by simp
  from Cons.IH [OF this, of ?s]
  have IH: "mset (fst (fst ?r)) + filter_mset not_none (mset (fst (snd ?r))) =
    filter_mset not_none (mset data) + filter_mset not_none (mset (buffer[?i := item]))" .
  have out: "mset (if buffer ! ?i \<noteq> PyNone then [buffer ! ?i] else []) =
    filter_mset not_none {#buffer ! ?i#}" by simp
  have "mset (fst (fst (fill_loop (item # data) buffer s))) +
     filter_mset not_none (mset (fst (snd (fill_loop (item # data) buffer s)))) =
     filter_mset not_none {#buffer ! ?i#} +
       (mset (fst (fst ?r)) + filter_mset not_none (mset (fst (snd ?r))))"
    using Cons.prems by (simp add: fill_loop_Cons Let_def del: fill_loop.simps)
  also have "\<dots> = filter_mset not_none (mset data) +
      (filter_mset not_none (mset (buffer[?i := item])) + filter_mset not_none {#buffer ! ?i#})"
    by (simp only: IH ac_simps)
  also have "\<dots> = filter_mset not_none (mset data) +
      (filter_mset not_none {#item#} + filter_mset not_none (mset buffer))"
    by (simp only: filter_mset_update [OF i])
  also have "\<dots> = filter_mset not_none (mset (item # data)) + filter_mset not_none (mset buffer)"
    by simp
  finally show ?case .
qed

lemma bsg_unfold:
  "0 < n \<Longrightarrow>
   buffered_shuffle_generator (list_data xs) (int n) s =
     (let r = fill_loop xs (replicate n PyNone) s;
          f = flush (fst (snd r)) (snd (snd r))
      in ((fst (fst r) @ fst f, None), snd f))"
  using fill_loop_no_error [of "replicate n PyNone" xs s]
  by (simp add: buffered_shuffle_generator_def list_data_def Let_def case_prod_beta)

lemma bsg_output:
  assumes "1 \<le> n"
  shows "PyNone \<notin> set (fst (fst (buffered_shuffle_generator (list_data xs) n s)))"
    and "mset (fst (fst (buffered_shuffle_generator (list_data xs) n s))) =
         filter_mset not_none (mset xs)"
proof -
  let ?n = "nat n"
  let ?r = "fill_loop xs (replicate ?n PyNone) s"
  let ?f = "flush (fst (snd ?r)) (snd (snd ?r))"
  from assms have n: "0 < ?n" "n = int ?n" by simp_all
  have len: "0 < length (replicate ?n (PyNone :: 'a pyval))" using n by simp
  have out: "fst (fst (buffered_shuffle_generator (list_data xs) n s)) = fst (fst ?r) @ fst ?f"
    using bsg_unfold [OF n(1), of xs s] n(2) by (simp add: Let_def)
  have fl: "mset (fst ?f) = filter_mset not_none (mset (fst (snd ?r)))"
    by (simp only: flush_def case_prod_beta Let_def fst_conv mset_filter mset_random_shuffle)
  have "PyNone \<notin> set (fst ?f)" by (simp add: flush_def case_prod_beta)
  with fill_loop_not_none [OF len, of xs s] out
  show "PyNone \<notin> set (fst (fst (buffered_shuffle_generator (list_data xs) n s)))" by simp
  have "mset (fst (fst ?r) @ fst ?f) =
      mset (fst (fst ?r)) + filter_mset not_none (mset (fst (snd ?r)))"
    using fl by simp
  also have "\<dots> = filter_mset not_none (mset xs) +
      filter_mset not_none (mset (replicate ?n PyNone))"
    by (rule fill_loop_mset [OF len])
  also have "\<dots> = filter_mset not_none (mset xs)"
    by (simp add: filter_mset_False)
  finally show "mset (fst (fst (buffered_shuffle_generator (list_data xs) n s))) =
         filter_mset not_none (mset xs)" using out by simp
qed

lemmas run_defs = buffered_shuffle_generator_def list_data_def example_state_def
  randrange_def randbelow_def flush_def random_shuffle_def

section \<open>Claims about \<^verbatim>\<open>buffered_shuffle_generator\<close>\<close>

lemma bsg_status:
  "1 \<le> n \<Longrightarrow> snd (fst (buffered_shuffle_generator data n s)) = snd (fst (data s))"
proof -
  assume n: "1 \<le> n"
  then have "0 < length (replicate (nat n) (PyNone :: 'a pyval))" by simp
  from fill_loop_no_error [OF this, of "fst (fst (data s))" "snd (data s)"] n
  show ?thesis
    by (simp add: buffered_shuffle_generator_def Let_def case_prod_beta split: option.splits)
qed

text \<open>
  C3. With a buffer size of zero or less the generator raises \<^verbatim>\<open>ValueError\<close> and
  yields nothing, whatever the source is; the source is not started and the state is
  untouched. With a buffer size of one or more the generator ends the way its source
  ends, so it raises no exception of its own, neither at the check of line 35 nor in
  \<^verbatim>\<open>randrange\<close>; run on a list it ends without an exception.
\<close>

theorem buffer_size_check:
  "(n \<le> 0 \<longrightarrow> buffered_shuffle_generator data n s = (([], Some ValueError), s)) \<and>
   (1 \<le> n \<longrightarrow> snd (fst (buffered_shuffle_generator data n s)) = snd (fst (data s))) \<and>
   (1 \<le> n \<longrightarrow> snd (fst (buffered_shuffle_generator (list_data xs) n s)) = None)"
  using bsg_status [of n data s] bsg_status [of n "list_data xs" s]
  by (simp add: buffered_shuffle_generator_def list_data_def)

theorem buffer_size_check_witness:
  "buffered_shuffle_generator (list_data [PyStr ''a'' :: unit pyval]) 0 example_state
     = (([], Some ValueError), example_state) \<and>
   buffered_shuffle_generator (list_data [PyStr ''a'' :: unit pyval]) (- 3) example_state
     = (([], Some ValueError), example_state) \<and>
   snd (fst (buffered_shuffle_generator (list_data [PyStr ''a'' :: unit pyval]) 1 example_state)) = None"
  using buffer_size_check [where n = 0 and data = "list_data [PyStr ''a'' :: unit pyval]"
      and s = example_state]
    buffer_size_check [where n = "- 3" and data = "list_data [PyStr ''a'' :: unit pyval]"
      and s = example_state]
    buffer_size_check [where n = 1 and xs = "[PyStr ''a'' :: unit pyval]" and s = example_state
      and data = "list_data [PyStr ''a'' :: unit pyval]"]
  by (simp add: list_data_def)

text \<open>
  C9. Run on a list with a buffer size of one or more, the generator never yields
  \<^verbatim>\<open>None\<close>, and the items it yields are, as a multiset, the items of the list that
  are not \<^verbatim>\<open>None\<close>: an item \<^verbatim>\<open>None\<close> of the input is lost.
\<close>

theorem shuffle_drops_None:
  "1 \<le> n \<Longrightarrow>
   PyNone \<notin> set (fst (fst (buffered_shuffle_generator (list_data xs) n s))) \<and>
   mset (fst (fst (buffered_shuffle_generator (list_data xs) n s))) =
     filter_mset (\<lambda>item. item \<noteq> PyNone) (mset xs)"
  using bsg_output [of n xs s] by simp

theorem shuffle_drops_None_witness:
  "(1::int) \<le> 2 \<and>
   PyNone \<notin> set (fst (fst (buffered_shuffle_generator
     (list_data [PyStr ''a'', PyNone, PyStr ''b'' :: unit pyval]) 2 example_state))) \<and>
   mset (fst (fst (buffered_shuffle_generator
     (list_data [PyStr ''a'', PyNone, PyStr ''b'' :: unit pyval]) 2 example_state))) =
     {#PyStr ''a'', PyStr ''b''#}"
  using shuffle_drops_None [of 2 "[PyStr ''a'', PyNone, PyStr ''b'' :: unit pyval]" example_state]
  by simp

text \<open>
  C1, as stated, fails: the one-item list holding \<^verbatim>\<open>None\<close> goes in and nothing comes
  out.
\<close>

theorem shuffle_loses_None_counterexample:
  "mset (fst (fst (buffered_shuffle_generator (list_data [PyNone :: unit pyval]) 1 example_state)))
     \<noteq> mset [PyNone :: unit pyval]"
  by (simp add: run_defs)

text \<open>
  C1, amended. For a list none of whose items is \<^verbatim>\<open>None\<close> and a buffer size of one or
  more, the generator yields exactly the items of the list, as a multiset, and as many
  items as the list has.
\<close>

theorem shuffle_keeps_multiset:
  "1 \<le> n \<Longrightarrow> PyNone \<notin> set xs \<Longrightarrow>
   mset (fst (fst (buffered_shuffle_generator (list_data xs) n s))) = mset xs \<and>
   length (fst (fst (buffered_shuffle_generator (list_data xs) n s))) = length xs"
proof -
  assume n: "1 \<le> n" and xs: "PyNone \<notin> set xs"
  have "filter_mset not_none (mset xs) = mset xs"
    using xs by (auto simp: filter_mset_eq_conv)
  with bsg_output(2) [OF n, of xs s]
  have m: "mset (fst (fst (buffered_shuffle_generator (list_data xs) n s))) = mset xs" by simp
  from m show ?thesis by (blast dest: mset_eq_length)
qed

theorem shuffle_keeps_multiset_witness:
  "(1::int) \<le> 2 \<and> PyNone \<notin> set [PyStr ''a'', PyObj (), PyStr ''b'' :: unit pyval] \<and>
   mset (fst (fst (buffered_shuffle_generator
     (list_data [PyStr ''a'', PyObj (), PyStr ''b'' :: unit pyval]) 2 example_state))) =
     mset [PyStr ''a'', PyObj (), PyStr ''b''] \<and>
   length (fst (fst (buffered_shuffle_generator
     (list_data [PyStr ''a'', PyObj (), PyStr ''b'' :: unit pyval]) 2 example_state))) =
   length [PyStr ''a'', PyObj (), PyStr ''b'' :: unit pyval]"
  using shuffle_keeps_multiset [of 2 "[PyStr ''a'', PyObj (), PyStr ''b'' :: unit pyval]" example_state]
  by simp

section \<open>The code against the two-phase algorithm\<close>

lemma shuffle_loop_Suc:
  "shuffle_loop (Suc i) x s =
     shuffle_loop i (x[Suc i := x ! (shd (rng s) mod Suc (Suc i)),
                       shd (rng s) mod Suc (Suc i) := x ! Suc i]) (s\<lparr>rng := stl (rng s)\<rparr>)"
  by (simp add: randbelow_def)








lemma fill_loop_single:
  "fst (fill_loop xs [b] s) = (filter not_none (butlast (b # xs)), None) \<and>
   fst (snd (fill_loop xs [b] s)) = [last (b # xs)]"
proof (induction xs arbitrary: b s)
  case Nil
  then show ?case by simp
next
  case (Cons item xs)
  from Cons.IH [of item "s\<lparr>rng := stl (rng s)\<rparr>"]
  show ?case by (simp add: fill_loop_Cons Let_def prod_eq_iff del: fill_loop.simps)
qed

lemma flush_single: "flush [b] s = (filter not_none [b], s)"
  by (simp add: flush_def random_shuffle_def)

lemma bsg_single:
  "fst (buffered_shuffle_generator (list_data xs) 1 s) = (filter not_none xs, None)"
proof -
  have "filter not_none (butlast (PyNone # xs)) @ filter not_none [last (PyNone # xs)] =
     filter not_none (butlast (PyNone # xs) @ [last (PyNone # xs)])"
    by (simp only: filter_append)
  also have "\<dots> = filter not_none xs" by (simp only: append_butlast_last_id [OF list.distinct(2)]) simp
  finally show ?thesis
    using bsg_unfold [of 1 xs s] fill_loop_single [of xs PyNone s]
    by (simp add: Let_def flush_single)
qed




text \<open>
  C4, as stated, fails on an input holding \<^verbatim>\<open>None\<close>: the item is not yielded.
\<close>

theorem single_slot_None_counterexample:
  "fst (buffered_shuffle_generator (list_data [PyStr ''a'', PyNone :: unit pyval]) 1 example_state)
     \<noteq> ([PyStr ''a'', PyNone], None)"
  by (simp add: run_defs)

text \<open>
  C4, amended. With a buffer size of one and a list none of whose items is \<^verbatim>\<open>None\<close>,
  the generator yields the list itself, in order. The loop over the items yields all items
  but the last, each one when its successor arrives, and leaves the last item in the
  buffer (the buffer is still empty when the list is); the flush then yields that item.
\<close>

theorem single_slot_pass_through:
  "PyNone \<notin> set xs \<Longrightarrow>
   fst (buffered_shuffle_generator (list_data xs) 1 s) = (xs, None) \<and>
   fst (fill_loop xs [PyNone] s) = (butlast xs, None) \<and>
   fst (snd (fill_loop xs [PyNone] s)) = [last (PyNone # xs)] \<and>
   (xs \<noteq> [] \<longrightarrow> flush [last xs] s1 = ([last xs], s1))"
proof -
  assume xs: "PyNone \<notin> set xs"
  then have f: "filter not_none xs = xs" by (induction xs) auto
  have "PyNone \<notin> set (butlast xs)" using xs by (auto dest: in_set_butlastD)
  then have "filter not_none (butlast xs) = butlast xs" by (induction "butlast xs") (auto simp: filter_id_conv)
  then have b: "filter not_none (butlast (PyNone # xs)) = butlast xs" by simp
  have l: "xs \<noteq> [] \<Longrightarrow> last xs \<noteq> PyNone" using xs last_in_set by metis
  show ?thesis
    using bsg_single [of xs s] fill_loop_single [of xs PyNone s] f b l
    by (simp add: flush_single)
qed

theorem single_slot_pass_through_witness:
  "PyNone \<notin> set [PyStr ''a'', PyStr ''b'', PyStr ''c'' :: unit pyval] \<and>
   fst (buffered_shuffle_generator (list_data [PyStr ''a'', PyStr ''b'', PyStr ''c'' :: unit pyval]) 1
     example_state) = ([PyStr ''a'', PyStr ''b'', PyStr ''c''], None) \<and>
   fst (fill_loop [PyStr ''a'', PyStr ''b'', PyStr ''c'' :: unit pyval] [PyNone] example_state) =
     ([PyStr ''a'', PyStr ''b''], None) \<and>
   fst (snd (fill_loop [PyStr ''a'', PyStr ''b'', PyStr ''c'' :: unit pyval] [PyNone] example_state)) =
     [PyStr ''c''] \<and>
   flush [PyStr ''c'' :: unit pyval] example_state = ([PyStr ''c''], example_state)"
  using single_slot_pass_through [of "[PyStr ''a'', PyStr ''b'', PyStr ''c'' :: unit pyval]"
      example_state example_state]
  by simp

section \<open>Claims about \<^verbatim>\<open>transform_generator\<close> and \<^verbatim>\<open>ChunkedDataset\<close>\<close>




lemma endswith_iff: "endswith str suf \<longleftrightarrow> (\<exists>pre. str = pre @ suf)"
proof
  assume "endswith str suf"
  then have "str = take (length str - length suf) str @ suf"
    by (metis append_take_drop_id endswith_def)
  then show "\<exists>pre. str = pre @ suf" ..
next
  assume "\<exists>pre. str = pre @ suf"
  then show "endswith str suf" by (auto simp: endswith_def)
qed

lemma scan_loop_filter:
  "scan_loop path entries acc =
     acc @ map (\<lambda>e. os_path_join path (name e))
            (filter (\<lambda>e. is_file e \<and> endswith (name e) ''.gz'') entries)"
  by (induction entries arbitrary: acc) simp_all

text \<open>
  C6. When the directory can be listed, the constructor stores a new list that is sorted
  and holds, for exactly the entries that are files with a name ending in \<^verbatim>\<open>.gz\<close>,
  the entry's name joined to the directory path; every other entry is left out.
\<close>

theorem init_chunk_file_set:
  "scandir fs path = Some entries \<Longrightarrow>
   \<exists>paths.
     ChunkedDataset_init fs path sh bs tr s =
       (Inr \<lparr>chunk_file_paths = length (store s), shuffle = sh, buffer_size = bs, transform = tr\<rparr>,
        s\<lparr>store := store s @ [paths]\<rparr>) \<and>
     sorted paths \<and>
     mset paths =
       image_mset (\<lambda>e. os_path_join path (name e))
         (filter_mset (\<lambda>e. is_file e \<and> (\<exists>pre. name e = pre @ ''.gz'')) (mset entries))"
proof -
  assume "scandir fs path = Some entries"
  then have "ChunkedDataset_init fs path sh bs tr s =
       (Inr \<lparr>chunk_file_paths = length (store s), shuffle = sh, buffer_size = bs, transform = tr\<rparr>,
        s\<lparr>store := store s @ [sort (scan_loop path entries [])]\<rparr>)"
    by (simp add: ChunkedDataset_init_def)
  moreover have "sorted (sort (scan_loop path entries []))" by simp
  moreover have "mset (sort (scan_loop path entries [])) =
       image_mset (\<lambda>e. os_path_join path (name e))
         (filter_mset (\<lambda>e. is_file e \<and> (\<exists>pre. name e = pre @ ''.gz'')) (mset entries))"
    by (simp add: scan_loop_filter endswith_iff flip: mset_filter mset_map)
  ultimately show ?thesis by blast
qed

lemmas fs_defs = example_fs_def endswith_def os_path_join_def startswith_def

lemma example_init:
  "ChunkedDataset_init example_fs ''data'' sh bs tr example_state =
     (Inr \<lparr>chunk_file_paths = 0, shuffle = sh, buffer_size = bs, transform = tr\<rparr>,
      \<lparr>rng = sconst 0, store = [[''data/a.gz'', ''data/b.gz'']]\<rparr>)"
  by (simp add: ChunkedDataset_init_def fs_defs example_state_def)

theorem init_chunk_file_set_witness:
  "scandir example_fs ''data'' =
     Some [\<lparr>name = ''b.gz'', is_file = True\<rparr>, \<lparr>name = ''notes.txt'', is_file = True\<rparr>,
           \<lparr>name = ''a.gz'', is_file = True\<rparr>, \<lparr>name = ''old.gz'', is_file = False\<rparr>] \<and>
   (\<exists>paths.
     ChunkedDataset_init example_fs ''data'' True 1024 (None :: (unit pyval \<Rightarrow> unit pyval) option)
         example_state =
       (Inr \<lparr>chunk_file_paths = 0, shuffle = True, buffer_size = 1024, transform = None\<rparr>,
        example_state\<lparr>store := [paths]\<rparr>) \<and>
     sorted paths \<and> mset paths = {#''data/b.gz'', ''data/a.gz''#})"
proof -
  have sc: "scandir example_fs ''data'' =
     Some [\<lparr>name = ''b.gz'', is_file = True\<rparr>, \<lparr>name = ''notes.txt'', is_file = True\<rparr>,
           \<lparr>name = ''a.gz'', is_file = True\<rparr>, \<lparr>name = ''old.gz'', is_file = False\<rparr>]"
    by (simp add: example_fs_def)
  show ?thesis
    using sc init_chunk_file_set [OF sc, of True 1024 "None :: (unit pyval \<Rightarrow> unit pyval) option"
        example_state]
    by (simp add: example_state_def os_path_join_def startswith_def endswith_def)
qed


lemma read_chunks_readable:
  "\<forall>p\<in>set paths. read_lines fs p \<noteq> None \<Longrightarrow>
   read_chunks fs paths = (map PyStr (concat (map (\<lambda>p. the (read_lines fs p)) paths)), None)"
  by (induction paths) (auto split: option.splits)


lemma chunked_data_generator_unshuffled:
  "chunked_data_generator fs r False s =
     (read_chunks fs (store s ! r), s\<lparr>store := store s @ [store s ! r]\<rparr>)"
  by (simp add: chunked_data_generator_def list_copy_def)

lemma iter_unshuffled:
  "shuffle self = False \<Longrightarrow>
   ChunkedDataset_iter fs self s =
     transform_generator (chunked_data_generator fs (chunk_file_paths self) False) (transform self) s"
  by (simp add: ChunkedDataset_iter_def)

text \<open>
  C5. For a dataset constructed with the shuffle flag off, all of whose chunk files can
  be read: the stored paths are sorted, a pass yields the lines of the chunk files in
  the order of the stored paths, each file's lines in the order of the file (with the
  transform of the dataset applied), and the pass after it yields the same sequence. The
  witness is the directory with the chunks \<^verbatim>\<open>["a", "b"]\<close> and \<^verbatim>\<open>["c"]\<close>.
\<close>

theorem iter_unshuffled_order:
  assumes "ChunkedDataset_init fs path False bs tr s = (Inr self, s0)"
    and "\<forall>p\<in>set (store s0 ! chunk_file_paths self). read_lines fs p \<noteq> None"
  shows "sorted (store s0 ! chunk_file_paths self) \<and>
    fst (ChunkedDataset_iter fs self s0) =
      fst (transform_generator
        (list_data (map PyStr
           (concat (map (\<lambda>p. the (read_lines fs p)) (store s0 ! chunk_file_paths self)))))
        tr s0) \<and>
    fst (ChunkedDataset_iter fs self (snd (ChunkedDataset_iter fs self s0))) =
      fst (ChunkedDataset_iter fs self s0)"
proof -
  from assms(1) obtain entries where
    self: "self = \<lparr>chunk_file_paths = length (store s), shuffle = False, buffer_size = bs,
        transform = tr\<rparr>"
    and s0: "s0 = s\<lparr>store := store s @ [sort (scan_loop path entries [])]\<rparr>"
    by (auto simp: ChunkedDataset_init_def split: option.splits)
  let ?r = "chunk_file_paths self"
  let ?paths = "store s0 ! ?r"
  let ?items = "map PyStr (concat (map (\<lambda>p. the (read_lines fs p)) ?paths)) :: 'a pyval list"
  have paths: "?paths = sort (scan_loop path entries [])" by (simp add: self s0)
  have r: "?r < length (store s0)" by (simp add: self s0)
  have sh: "shuffle self = False" and tr: "transform self = tr" by (simp_all add: self)
  have run: "fst (ChunkedDataset_iter fs self t) = fst (transform_generator (list_data ?items) tr s0)"
    if "store t ! ?r = ?paths" for t
    using that assms(2)
    by (simp add: iter_unshuffled [OF sh] tr chunked_data_generator_unshuffled
        read_chunks_readable list_data_def transform_generator_def split: option.splits)
  have after: "store (snd (ChunkedDataset_iter fs self s0)) ! ?r = ?paths"
    using r by (simp add: iter_unshuffled [OF sh] transform_generator_def case_prod_beta
        chunked_data_generator_unshuffled nth_append split: option.splits)
  show ?thesis using run [OF refl] run [OF after] paths by simp
qed

theorem iter_unshuffled_order_witness:
  "ChunkedDataset_init example_fs ''data'' False 1024 (None :: (unit pyval \<Rightarrow> unit pyval) option)
       example_state =
     (Inr \<lparr>chunk_file_paths = 0, shuffle = False, buffer_size = 1024, transform = None\<rparr>,
      example_state\<lparr>store := [[''data/a.gz'', ''data/b.gz'']]\<rparr>) \<and>
   read_lines example_fs ''data/a.gz'' = Some [''a'', ''b''] \<and>
   read_lines example_fs ''data/b.gz'' = Some [''c''] \<and>
   fst (ChunkedDataset_iter example_fs
         \<lparr>chunk_file_paths = 0, shuffle = False, buffer_size = 1024,
          transform = (None :: (unit pyval \<Rightarrow> unit pyval) option)\<rparr>
         (example_state\<lparr>store := [[''data/a.gz'', ''data/b.gz'']]\<rparr>)) =
     ([PyStr ''a'', PyStr ''b'', PyStr ''c''], None)"
proof -
  let ?self = "\<lparr>chunk_file_paths = 0, shuffle = False, buffer_size = 1024,
          transform = (None :: (unit pyval \<Rightarrow> unit pyval) option)\<rparr>"
  let ?s0 = "example_state\<lparr>store := [[''data/a.gz'', ''data/b.gz'']]\<rparr>"
  have init: "ChunkedDataset_init example_fs ''data'' False 1024 None example_state = (Inr ?self, ?s0)"
    unfolding example_init by (simp add: example_state_def)
  have readable: "\<forall>p\<in>set (store ?s0 ! chunk_file_paths ?self). read_lines example_fs p \<noteq> None"
    by (simp add: example_fs_def)
  show ?thesis
    using init readable iter_unshuffled_order [OF init readable]
    by (simp add: transform_generator_def list_data_def example_fs_def)
qed

section \<open>The store during a pass\<close>

lemma store_shuffle_loop: "store (snd (shuffle_loop i x s)) = store s"
  by (induction i arbitrary: x s) (simp_all add: shuffle_loop_Suc del: shuffle_loop.simps(2))

lemma store_flush: "store (snd (flush buffer s)) = store s"
  by (simp add: flush_def random_shuffle_def case_prod_beta store_shuffle_loop)

lemma store_randrange: "store (snd (randrange a b s)) = store s"
  by (simp add: randrange_def randbelow_def)

lemma store_fill_loop: "store (snd (snd (fill_loop data buffer s))) = store s"
proof (induction data arbitrary: buffer s)
  case Nil
  then show ?case by simp
next
  case (Cons item data)
  show ?case
  proof (cases "randrange 0 (int (length buffer)) s")
    case (Pair r s1)
    then have s1: "store s1 = store s" using store_randrange [of 0 "int (length buffer)" s] by simp
    show ?thesis
    proof (cases r)
      case (Inl e)
      with Pair s1 show ?thesis by simp
    next
      case (Inr index)
      with Pair s1 Cons.IH [of "buffer[nat index := item]" s1] show ?thesis
        by (simp add: case_prod_beta Let_def)
    qed
  qed
qed

lemma store_buffered_shuffle_generator:
  "store (snd (buffered_shuffle_generator data n s)) =
     (if n \<le> 0 then store s else store (snd (data s)))"
  by (simp add: buffered_shuffle_generator_def case_prod_beta Let_def store_flush store_fill_loop
      split: option.splits)

lemma store_transform_generator:
  "store (snd (transform_generator data tr s)) = store (snd (data s))"
  by (simp add: transform_generator_def case_prod_beta split: option.splits)

lemma store_list_copy: "store (snd (list_copy r s)) = store s @ [store s ! r]"
  by (simp add: list_copy_def)

lemma store_shuffle_in_place:
  "store (shuffle_in_place (fst (list_copy r s)) (snd (list_copy r s))) =
     store s @ [fst (random_shuffle (store s ! r) (snd (list_copy r s)))]"
  by (simp add: shuffle_in_place_def list_copy_def case_prod_beta random_shuffle_def
      store_shuffle_loop)

lemma store_chunked_data_generator:
  "\<exists>copied. store (snd (chunked_data_generator fs r shuffle_chunks s :: 'a pyval run \<times> state)) =
     store s @ [copied]"
proof (cases shuffle_chunks)
  case True
  then show ?thesis
    using store_shuffle_in_place [of r s]
    by (simp add: chunked_data_generator_def case_prod_beta)
next
  case False
  then show ?thesis by (simp add: chunked_data_generator_unshuffled)
qed

lemma store_iter:
  "\<exists>new. store (snd (ChunkedDataset_iter fs self s)) = store s @ new"
proof -
  let ?gen = "chunked_data_generator fs (chunk_file_paths self) (shuffle self) :: 'a pyval generator"
  obtain copied where c: "store (snd (?gen s)) = store s @ [copied]"
    using store_chunked_data_generator by blast
  show ?thesis
  proof (cases "shuffle self \<and> buffer_size self \<le> 0")
    case True
    then have "store (snd (ChunkedDataset_iter fs self s)) = store s @ []"
      by (simp add: ChunkedDataset_iter_def Let_def store_transform_generator
          store_buffered_shuffle_generator)
    then show ?thesis ..
  next
    case False
    then have "store (snd (ChunkedDataset_iter fs self s)) = store s @ [copied]"
      using c by (cases "shuffle self") (simp_all add: ChunkedDataset_iter_def Let_def
          store_transform_generator store_buffered_shuffle_generator)
    then show ?thesis ..
  qed
qed

text \<open>
  C8. The list object a dataset refers to has the same elements after a pass as before,
  whatever the shuffle flag and the buffer size are. A pass writes to the store only in
  lines 14 to 17 of \<^verbatim>\<open>chunked_data_generator\<close>, before its first item: the list is
  the same after the copy, after the shuffle of the copy, and after the whole generator
  with either value of its flag, so a pass that is given up early leaves it unchanged
  as well.
\<close>

theorem chunk_file_paths_unchanged:
  "chunk_file_paths self < length (store s) \<Longrightarrow>
   store (snd (ChunkedDataset_iter fs self s)) ! chunk_file_paths self =
     store s ! chunk_file_paths self \<and>
   store (snd (chunked_data_generator fs (chunk_file_paths self) shuffle_chunks s
       :: 'a pyval run \<times> state)) ! chunk_file_paths self =
     store s ! chunk_file_paths self \<and>
   store (snd (list_copy (chunk_file_paths self) s)) ! chunk_file_paths self =
     store s ! chunk_file_paths self \<and>
   store (shuffle_in_place (fst (list_copy (chunk_file_paths self) s))
       (snd (list_copy (chunk_file_paths self) s))) ! chunk_file_paths self =
     store s ! chunk_file_paths self"
proof -
  assume r: "chunk_file_paths self < length (store s)"
  obtain new where "store (snd (ChunkedDataset_iter fs self s)) = store s @ new"
    using store_iter by blast
  moreover obtain copied where
    "store (snd (chunked_data_generator fs (chunk_file_paths self) shuffle_chunks s
       :: 'a pyval run \<times> state)) = store s @ [copied]"
    using store_chunked_data_generator by blast
  ultimately show ?thesis
    using r by (simp add: nth_append store_list_copy store_shuffle_in_place)
qed

theorem chunk_file_paths_unchanged_witness:
  "chunk_file_paths \<lparr>chunk_file_paths = 0, shuffle = True, buffer_size = 2,
       transform = (None :: (unit pyval \<Rightarrow> unit pyval) option)\<rparr>
     < length (store (example_state\<lparr>store := [[''data/a.gz'', ''data/b.gz'']]\<rparr>)) \<and>
   store (snd (ChunkedDataset_iter example_fs
       \<lparr>chunk_file_paths = 0, shuffle = True, buffer_size = 2,
        transform = (None :: (unit pyval \<Rightarrow> unit pyval) option)\<rparr>
       (example_state\<lparr>store := [[''data/a.gz'', ''data/b.gz'']]\<rparr>))) =
     [[''data/a.gz'', ''data/b.gz''], [''data/b.gz'', ''data/a.gz'']] \<and>
   fst (ChunkedDataset_iter example_fs
       \<lparr>chunk_file_paths = 0, shuffle = True, buffer_size = 2,
        transform = (None :: (unit pyval \<Rightarrow> unit pyval) option)\<rparr>
       (example_state\<lparr>store := [[''data/a.gz'', ''data/b.gz'']]\<rparr>)) =
     ([PyStr ''c'', PyStr ''a'', PyStr ''b''], None)"
  using chunk_file_paths_unchanged [of
      "\<lparr>chunk_file_paths = 0, shuffle = True, buffer_size = 2,
        transform = (None :: (unit pyval \<Rightarrow> unit pyval) option)\<rparr>"
      "example_state\<lparr>store := [[''data/a.gz'', ''data/b.gz'']]\<rparr>" example_fs True]
  by (simp add: ChunkedDataset_iter_def chunked_data_generator_def list_copy_def
      shuffle_in_place_def transform_generator_def run_defs example_fs_def numeral_2_eq_2
      case_prod_beta)




end
